theory Spec2Isabelle
  imports
    Main
    "HOL-Library.Multiset"
    "HOL-Library.Char_ord"
    "HOL-Library.List_Lexorder"
begin

section \<open>CodeHub snippet browser: the view pipeline of BaseSnippetStorage\<close>

text \<open>
  A shallow embedding of the React component \<open>BaseSnippetStorage\<close> (second document of
  \<^verbatim>\<open>src/client/src/components/snippets/embed/EmbedView.tsx\<close>) and of the import loop of the
  settings dialog (\<^verbatim>\<open>src/unnamed/part_002\<close>, \<open>handleImportFile\<close>).

  Functions of the JavaScript runtime and of modules outside the sources are parameters of
  the model:
  \<^item> \<open>gl\<close> stands for \<open>getLanguageLabel\<close> (module \<open>utils/language/languageUtils\<close>);
  \<^item> \<open>tm\<close> stands for \<open>new Date(s).getTime()\<close>, with \<open>None\<close> for \<open>NaN\<close> (an invalid date);
  \<^item> \<open>lc\<close> stands for \<open>a.localeCompare(b)\<close>, a number whose sign is the comparison.
\<close>

subsection \<open>Data model\<close>

text \<open>
  The module \<open>types/snippets\<close> is not part of the sources; the fields are the ones the
  component reads. The flags \<open>is_pinned\<close> and \<open>is_favorite\<close> are numbers (the code subtracts
  them and compares them with \<open>1\<close>), \<open>updated_at\<close> is the string handed to \<open>new Date\<close>.
\<close>

record fragment =
  file_name :: string
  language :: string
  code :: string

record snippet =
  snippet_id :: string
  title :: string
  description :: string
  fragments :: "fragment list"
  categories :: "string list"
  is_pinned :: int
  is_favorite :: int
  updated_at :: string

datatype sort_order = Newest | Oldest | AlphaAsc | AlphaDesc

text \<open>The object handed to \<open>setSearchParams\<close>: a key is present or absent.\<close>

record url_params =
  categories_param :: "string option"
  language_param :: "string option"

text \<open>The component's props that the modelled code reads.\<close>

record props =
  snippets :: "snippet list"
  includeCodeInSearch :: bool
  showFavorites :: bool
  isRecycleView :: bool
  onPermanentDeleteAll :: bool

text \<open>
  \<open>onPermanentDeleteAll\<close> above records whether the optional callback was passed; a call of
  it is an effect (below). The component's own state (its \<open>useState\<close> cells and the search
  parameters of the URL):
\<close>

record view_state =
  searchTerm :: string
  selectedLanguage :: string
  sortOrder :: sort_order
  selectedCategories :: "string list"
  searchParams :: url_params
  isPermanentDeleteAllModalOpen :: bool

datatype effect =
    Toast string string
  | PermanentDeleteAll "snippet list"

subsection \<open>Strings and arrays of the runtime\<close>

text \<open>
  \<open>String.prototype.toLowerCase\<close> on the 8-bit characters of \<open>string\<close>: the letters
  \<open>A\<close> to \<open>Z\<close> (codes 65 to 90) move to \<open>a\<close> to \<open>z\<close>, every other character stays.
\<close>

definition toLowerChar :: "char \<Rightarrow> char" where
  "toLowerChar c =
     (let n = (of_char c :: nat) in if 65 \<le> n \<and> n \<le> 90 then char_of (n + 32) else c)"

definition toLowerCase :: "string \<Rightarrow> string" where
  "toLowerCase s = map toLowerChar s"

fun startsWith :: "string \<Rightarrow> string \<Rightarrow> bool" where
  "startsWith s [] = True"
| "startsWith [] (p # ps) = False"
| "startsWith (c # cs) (p # ps) = (c = p \<and> startsWith cs ps)"

text \<open>\<open>s.includes(sub)\<close> on strings: \<open>sub\<close> occurs in \<open>s\<close> as a contiguous block.\<close>

fun str_includes :: "string \<Rightarrow> string \<Rightarrow> bool" where
  "str_includes [] sub = (sub = [])"
| "str_includes (c # cs) sub = (startsWith (c # cs) sub \<or> str_includes cs sub)"

text \<open>What a substring is, stated without the code: \<open>sub\<close> lies in \<open>s\<close> between a prefix and a suffix.\<close>

definition occurs_in :: "string \<Rightarrow> string \<Rightarrow> bool" where
  "occurs_in sub s = (\<exists>ps ss. s = ps @ sub @ ss)"

text \<open>\<open>arr.includes(x)\<close> on arrays.\<close>

fun arr_includes :: "'a list \<Rightarrow> 'a \<Rightarrow> bool" where
  "arr_includes [] x = False"
| "arr_includes (y # ys) x = (y = x \<or> arr_includes ys x)"




text \<open>
  \<open>Array.prototype.sort\<close> with a comparison function. The sort is stable; it is modelled as
  insertion sort that puts an element before the first one it does not compare greater
  than. A comparator result is an integer here: a \<open>NaN\<close> result counts as \<open>+0\<close> in the
  runtime, which \<open>timeDiff\<close> below writes out.
\<close>

fun insertBy :: "('a \<Rightarrow> 'a \<Rightarrow> int) \<Rightarrow> 'a \<Rightarrow> 'a list \<Rightarrow> 'a list" where
  "insertBy cmp x [] = [x]"
| "insertBy cmp x (y # ys) = (if cmp x y \<le> 0 then x # y # ys else y # insertBy cmp x ys)"

fun sortBy :: "('a \<Rightarrow> 'a \<Rightarrow> int) \<Rightarrow> 'a list \<Rightarrow> 'a list" where
  "sortBy cmp [] = []"
| "sortBy cmp (x # xs) = insertBy cmp x (sortBy cmp xs)"

subsection \<open>Facets\<close>



subsection \<open>The filter predicate\<close>

text \<open>Lines 376 to 410; \<open>search\<close> is the lowercased search term.\<close>

definition basicMatch :: "string \<Rightarrow> snippet \<Rightarrow> bool" where
  "basicMatch search sn =
     (str_includes (toLowerCase (title sn)) search \<or>
      str_includes (toLowerCase (description sn)) search)"

definition fragmentMatch :: "(string \<Rightarrow> string) \<Rightarrow> bool \<Rightarrow> string \<Rightarrow> snippet \<Rightarrow> bool" where
  "fragmentMatch gl inclCode search sn =
     list_ex (\<lambda>f. str_includes (toLowerCase (file_name f)) search \<or>
                  str_includes (toLowerCase (gl (language f))) search \<or>
                  (inclCode \<and> str_includes (toLowerCase (code f)) search))
       (fragments sn)"

definition textMatch :: "(string \<Rightarrow> string) \<Rightarrow> bool \<Rightarrow> string \<Rightarrow> snippet \<Rightarrow> bool" where
  "textMatch gl inclCode term sn =
     (let search = toLowerCase term in basicMatch search sn \<or> fragmentMatch gl inclCode search sn)"

definition languageMatch :: "(string \<Rightarrow> string) \<Rightarrow> string \<Rightarrow> snippet \<Rightarrow> bool" where
  "languageMatch gl sel sn =
     (sel = [] \<or>
      list_ex (\<lambda>f. toLowerCase (gl (language f)) = toLowerCase sel) (fragments sn))"

definition categoryMatch :: "string list \<Rightarrow> snippet \<Rightarrow> bool" where
  "categoryMatch sel sn =
     (length sel = 0 \<or> list_all (\<lambda>cat. arr_includes (categories sn) cat) sel)"

definition snippetPasses :: "(string \<Rightarrow> string) \<Rightarrow> props \<Rightarrow> view_state \<Rightarrow> snippet \<Rightarrow> bool" where
  "snippetPasses gl p st sn =
     (if showFavorites p \<and> is_favorite sn \<noteq> 1 then False
      else textMatch gl (includeCodeInSearch p) (searchTerm st) sn \<and>
           languageMatch gl (selectedLanguage st) sn \<and>
           categoryMatch (selectedCategories st) sn)"

subsection \<open>The comparator and the pipeline\<close>

text \<open>
  \<open>new Date(a).getTime() - new Date(b).getTime()\<close> as a comparator result: the difference
  of the two times, and \<open>0\<close> when either date is invalid (\<open>NaN\<close>).
\<close>

definition timeDiff :: "(string \<Rightarrow> int option) \<Rightarrow> string \<Rightarrow> string \<Rightarrow> int" where
  "timeDiff tm a b =
     (case tm a of None \<Rightarrow> 0
      | Some x \<Rightarrow> (case tm b of None \<Rightarrow> 0 | Some y \<Rightarrow> x - y))"

text \<open>Lines 411 to 438.\<close>

definition compareSnippets ::
  "(string \<Rightarrow> int option) \<Rightarrow> (string \<Rightarrow> string \<Rightarrow> int) \<Rightarrow> sort_order \<Rightarrow> snippet \<Rightarrow> snippet \<Rightarrow> int" where
  "compareSnippets tm lc so a b =
     (if is_pinned a \<noteq> is_pinned b then is_pinned b - is_pinned a
      else if is_pinned a = 1 \<and> is_pinned b = 1
        then timeDiff tm (updated_at b) (updated_at a)
      else (case so of
              Newest \<Rightarrow> timeDiff tm (updated_at b) (updated_at a)
            | Oldest \<Rightarrow> timeDiff tm (updated_at a) (updated_at b)
            | AlphaAsc \<Rightarrow> lc (title a) (title b)
            | AlphaDesc \<Rightarrow> lc (title b) (title a)))"

text \<open>Lines 374 to 449: \<open>filteredSnippets\<close>.\<close>

definition filteredSnippets ::
  "(string \<Rightarrow> string) \<Rightarrow> (string \<Rightarrow> int option) \<Rightarrow> (string \<Rightarrow> string \<Rightarrow> int) \<Rightarrow>
   props \<Rightarrow> view_state \<Rightarrow> snippet list" where
  "filteredSnippets gl tm lc p st =
     sortBy (compareSnippets tm lc (sortOrder st)) (filter (snippetPasses gl p st) (snippets p))"

subsection \<open>Sample data for the examples\<close>

text \<open>
  An instance of the label function for the examples; the repository's own table of labels
  is not in the sources, and no theorem depends on this one outside its example.
\<close>

definition sampleLanguageLabel :: "string \<Rightarrow> string" where
  "sampleLanguageLabel l = (if l = ''python'' then ''Python'' else l)"

definition plainFragment :: fragment where
  "plainFragment = \<lparr>file_name = ''notes.txt'', language = ''python'', code = ''print(1)''\<rparr>"

definition tagged :: "string list \<Rightarrow> snippet" where
  "tagged cats =
     \<lparr>snippet_id = ''1'', title = ''Tagged'', description = '''', fragments = [plainFragment],
      categories = cats, is_pinned = 0, is_favorite = 0, updated_at = ''2024-01-01''\<rparr>"

subsection \<open>Instances of the runtime parameters for the examples\<close>

text \<open>
  An instance of \<open>tm\<close>: the date-only form \<open>YYYY-MM-DD\<close> of the date-time string format, read
  as midnight UTC in milliseconds since 1970-01-01. A string of another shape, or with a
  month or day out of range, reads as an invalid date here. The general theorems hold for
  every \<open>tm\<close>; this instance runs the examples.
\<close>

definition digitVal :: "char \<Rightarrow> nat option" where
  "digitVal c = (let n = (of_char c :: nat) in if 48 \<le> n \<and> n \<le> 57 then Some (n - 48) else None)"

fun parseDigits :: "nat \<Rightarrow> string \<Rightarrow> nat option" where
  "parseDigits acc [] = Some acc"
| "parseDigits acc (c # cs) =
     (case digitVal c of None \<Rightarrow> None | Some d \<Rightarrow> parseDigits (10 * acc + d) cs)"

definition isLeapYear :: "nat \<Rightarrow> bool" where
  "isLeapYear y = (y mod 4 = 0 \<and> (y mod 100 \<noteq> 0 \<or> y mod 400 = 0))"

definition daysInMonth :: "nat \<Rightarrow> nat \<Rightarrow> nat" where
  "daysInMonth y m =
     (if m = 2 then (if isLeapYear y then 29 else 28)
      else if m = 4 \<or> m = 6 \<or> m = 9 \<or> m = 11 then 30 else 31)"

definition daysFromCivil :: "int \<Rightarrow> int \<Rightarrow> int \<Rightarrow> int" where
  "daysFromCivil y m d =
     (let y' = (if m \<le> 2 then y - 1 else y);
          era = y' div 400;
          yoe = y' - era * 400;
          doy = (153 * (if m > 2 then m - 3 else m + 9) + 2) div 5 + d - 1;
          doe = yoe * 365 + yoe div 4 - yoe div 100 + doy
      in era * 146097 + doe - 719468)"

definition isoDateTime :: "string \<Rightarrow> int option" where
  "isoDateTime s =
     (if length s = 10 \<and> s ! 4 = CHR ''-'' \<and> s ! 7 = CHR ''-'' then
        (case parseDigits 0 (take 4 s) of None \<Rightarrow> None
         | Some y \<Rightarrow>
         (case parseDigits 0 (take 2 (drop 5 s)) of None \<Rightarrow> None
          | Some m \<Rightarrow>
          (case parseDigits 0 (drop 8 s) of None \<Rightarrow> None
           | Some d \<Rightarrow>
              if 1 \<le> m \<and> m \<le> 12 \<and> 1 \<le> d \<and> d \<le> daysInMonth y m
              then Some (daysFromCivil (int y) (int m) (int d) * 86400000)
              else None)))
      else None)"

text \<open>
  An instance of \<open>lc\<close>: comparison by character codes, which orders the letters of one case
  as a locale does.
\<close>

definition codeUnitCompare :: "string \<Rightarrow> string \<Rightarrow> int" where
  "codeUnitCompare a b = (if a < b then - 1 else if a = b then 0 else 1)"


text \<open>The state at mount (lines 297 to 306).\<close>

definition initialState :: view_state where
  "initialState =
     \<lparr>searchTerm = [], selectedLanguage = [], sortOrder = Newest, selectedCategories = [],
      searchParams = \<lparr>categories_param = None, language_param = None\<rparr>,
      isPermanentDeleteAllModalOpen = False\<rparr>"

text \<open>The three snippets of the specification's example.\<close>

definition exampleS1 :: snippet where
  "exampleS1 =
     \<lparr>snippet_id = ''S1'', title = ''Alpha'', description = [], fragments = [plainFragment],
      categories = [], is_pinned = 1, is_favorite = 0, updated_at = ''2024-01-01''\<rparr>"

definition exampleS2 :: snippet where
  "exampleS2 =
     \<lparr>snippet_id = ''S2'', title = ''Beta'', description = [], fragments = [plainFragment],
      categories = [], is_pinned = 0, is_favorite = 0, updated_at = ''2024-03-01''\<rparr>"

definition exampleS3 :: snippet where
  "exampleS3 =
     \<lparr>snippet_id = ''S3'', title = ''Gamma'', description = [], fragments = [plainFragment],
      categories = [], is_pinned = 1, is_favorite = 0, updated_at = ''2024-02-01''\<rparr>"

text \<open>Props with the given collection, favourites off, code search off, outside the recycle bin.\<close>

definition browse :: "snippet list \<Rightarrow> props" where
  "browse sns =
     \<lparr>snippets = sns, includeCodeInSearch = False, showFavorites = False,
      isRecycleView = False, onPermanentDeleteAll = True\<rparr>"

subsection \<open>Vocabulary of the ordering properties\<close>

definition isPinned :: "snippet \<Rightarrow> bool" where
  "isPinned sn = (is_pinned sn = 1)"

definition isUnpinned :: "snippet \<Rightarrow> bool" where
  "isUnpinned sn = (is_pinned sn = 0)"

text \<open>
  Comparing two snippets by the time their \<open>updated_at\<close> denotes; both relations are false
  when either date is invalid.
\<close>

definition strictlyNewer :: "(string \<Rightarrow> int option) \<Rightarrow> snippet \<Rightarrow> snippet \<Rightarrow> bool" where
  "strictlyNewer tm a b =
     (case tm (updated_at a) of None \<Rightarrow> False
      | Some x \<Rightarrow> (case tm (updated_at b) of None \<Rightarrow> False | Some y \<Rightarrow> y < x))"

definition notOlder :: "(string \<Rightarrow> int option) \<Rightarrow> snippet \<Rightarrow> snippet \<Rightarrow> bool" where
  "notOlder tm a b =
     (case tm (updated_at a) of None \<Rightarrow> False
      | Some x \<Rightarrow> (case tm (updated_at b) of None \<Rightarrow> False | Some y \<Rightarrow> y \<le> x))"

text \<open>Two pinned snippets updated at the same time.\<close>

definition tieA :: snippet where
  "tieA =
     \<lparr>snippet_id = ''A'', title = ''First'', description = [], fragments = [plainFragment],
      categories = [], is_pinned = 1, is_favorite = 0, updated_at = ''2024-01-01''\<rparr>"

definition tieB :: snippet where
  "tieB =
     \<lparr>snippet_id = ''B'', title = ''Second'', description = [], fragments = [plainFragment],
      categories = [], is_pinned = 1, is_favorite = 0, updated_at = ''2024-01-01''\<rparr>"

subsection \<open>Category selection and the URL\<close>




subsection \<open>One render\<close>




subsection \<open>The bulk action of the recycle bin\<close>

text \<open>Lines 457 to 473. A handler returns the next state and the effects it caused.\<close>

definition openPermanentDeleteAllModal :: "props \<Rightarrow> view_state \<Rightarrow> view_state \<times> effect list" where
  "openPermanentDeleteAllModal p st =
     (if length (snippets p) = 0
      then (st, [Toast ''No snippets in the recycle bin to clear.'' ''info''])
      else (st\<lparr>isPermanentDeleteAllModalOpen := True\<rparr>, []))"

definition closePermanentDeleteAllModal :: "view_state \<Rightarrow> view_state" where
  "closePermanentDeleteAllModal st = st\<lparr>isPermanentDeleteAllModalOpen := False\<rparr>"

definition handlePermanentDeleteAllConfirm :: "props \<Rightarrow> view_state \<Rightarrow> view_state \<times> effect list" where
  "handlePermanentDeleteAllConfirm p st =
     (closePermanentDeleteAllModal st,
      if onPermanentDeleteAll p then [PermanentDeleteAll (snippets p)] else [])"

datatype event = ClickClearAll | ClickConfirm | ClickCancel

text \<open>
  Modelled from the spec: the component \<open>ConfirmationModal\<close> is not in the sources. The
  specification calls the bulk action gated behind a confirmation step: the dialog's two
  buttons exist while its \<open>isOpen\<close> holds, and a click on them calls \<open>onConfirm\<close> or
  \<open>onClose\<close>.
\<close>

definition modalButtonsShown :: "bool \<Rightarrow> bool" where
  "modalButtonsShown isOpen = isOpen"

text \<open>
  One user event. The button of the bulk action is rendered in the recycle view only
  (lines 535 to 560); the dialog is wired at lines 620 to 629.
\<close>

definition dispatch :: "props \<Rightarrow> event \<Rightarrow> view_state \<Rightarrow> view_state \<times> effect list" where
  "dispatch p e st =
     (case e of
        ClickClearAll \<Rightarrow>
          if isRecycleView p then openPermanentDeleteAllModal p st else (st, [])
      | ClickConfirm \<Rightarrow>
          if modalButtonsShown (isPermanentDeleteAllModalOpen st)
          then handlePermanentDeleteAllConfirm p st else (st, [])
      | ClickCancel \<Rightarrow>
          if modalButtonsShown (isPermanentDeleteAllModalOpen st)
          then (closePermanentDeleteAllModal st, []) else (st, []))"

text \<open>A session: each event comes with the props of the render it happens in.\<close>

fun run :: "(props \<times> event) list \<Rightarrow> view_state \<Rightarrow> view_state \<times> effect list" where
  "run [] st = (st, [])"
| "run ((p, e) # rest) st =
     (case dispatch p e st of (st', fx) \<Rightarrow>
        (case run rest st' of (st'', fx') \<Rightarrow> (st'', fx @ fx')))"

text \<open>An effect that is a call of \<open>onPermanentDeleteAll\<close>.\<close>

definition isDeleteCall :: "effect \<Rightarrow> bool" where
  "isDeleteCall fx = (case fx of PermanentDeleteAll xs \<Rightarrow> True | Toast m k \<Rightarrow> False)"

text \<open>Props of the recycle view, and a state with a search term that only S2 matches.\<close>

definition recycleBin :: "snippet list \<Rightarrow> props" where
  "recycleBin sns = (browse sns)\<lparr>isRecycleView := True\<rparr>"

definition searchingBeta :: view_state where
  "searchingBeta = initialState\<lparr>searchTerm := ''beta''\<rparr>"

definition openedBeta :: view_state where
  "openedBeta = searchingBeta\<lparr>isPermanentDeleteAllModalOpen := True\<rparr>"

section \<open>Properties\<close>

subsection \<open>Arrays\<close>

lemma arr_includes_set: "arr_includes xs x \<longleftrightarrow> x \<in> set xs"
  by (induction xs) auto

subsection \<open>Category filter\<close>

text \<open>
  Claim C5. For a non-empty selection, a snippet passes the category filter exactly when
  every selected category is one of the snippet's categories; a snippet tagged \<open>a, b\<close> fails
  the selection \<open>a, c\<close>; with an empty selection every snippet passes.
\<close>

theorem categoryMatch_conjunctive:
  "(sel \<noteq> [] \<longrightarrow> (categoryMatch sel sn \<longleftrightarrow> (\<forall>c \<in> set sel. c \<in> set (categories sn))))
   \<and> \<not> categoryMatch [''a'', ''c''] (sn\<lparr>categories := [''a'', ''b'']\<rparr>)
   \<and> categoryMatch [] sn"
  by (simp add: categoryMatch_def arr_includes_set list_all_iff)

theorem categoryMatch_conjunctive_witness:
  "[''a'', ''b''] \<noteq> ([] :: string list)
   \<and> categoryMatch [''a'', ''b''] (tagged [''b'', ''x'', ''a''])
   \<and> \<not> categoryMatch [''a'', ''c''] (tagged [''a'', ''b''])
   \<and> categoryMatch [] (tagged [''a'', ''b''])"
  using categoryMatch_conjunctive [of "[''a'', ''b'']" "tagged [''b'', ''x'', ''a'']"]
    categoryMatch_conjunctive [of "[]" "tagged [''a'', ''b'']"]
  by (simp add: tagged_def)

subsection \<open>Text filter\<close>

lemma startsWith_iff: "startsWith s p \<longleftrightarrow> (\<exists>ss. s = p @ ss)"
  by (induction s p rule: startsWith.induct) auto

lemma str_includes_occurs: "str_includes s sub \<longleftrightarrow> occurs_in sub s"
proof (induction s)
  case Nil
  then show ?case by (auto simp: occurs_in_def)
next
  case (Cons c cs)
  have "occurs_in sub (c # cs) \<longleftrightarrow> (\<exists>ss. c # cs = sub @ ss) \<or> occurs_in sub cs"
    unfolding occurs_in_def
    by (auto simp: Cons_eq_append_conv) 
  then show ?case using Cons by (simp add: startsWith_iff)
qed

lemma str_includes_empty: "str_includes s []"
  by (cases s) auto

lemma lower_PY: "toLowerCase ''PY'' = ''py''" by code_simp
lemma lower_Python: "toLowerCase ''Python'' = ''python''" by code_simp
lemma py_in_python: "str_includes ''python'' ''py''" by simp

text \<open>
  Claim C6. A snippet passes the text filter exactly when the lowercased search term is a
  substring of the lowercased title, or of the lowercased description, or of some fragment's
  lowercased file name, or of some fragment's lowercased language label, or, with the
  include-code option on, of some fragment's lowercased code. The empty search term matches
  every snippet, and \<open>PY\<close> matches a snippet with a fragment whose label is \<open>Python\<close>.
\<close>

theorem textMatch_substring:
  "(textMatch gl incl term sn \<longleftrightarrow>
      occurs_in (toLowerCase term) (toLowerCase (title sn)) \<or>
      occurs_in (toLowerCase term) (toLowerCase (description sn)) \<or>
      (\<exists>f \<in> set (fragments sn). occurs_in (toLowerCase term) (toLowerCase (file_name f))) \<or>
      (\<exists>f \<in> set (fragments sn). occurs_in (toLowerCase term) (toLowerCase (gl (language f)))) \<or>
      (incl \<and> (\<exists>f \<in> set (fragments sn). occurs_in (toLowerCase term) (toLowerCase (code f)))))
   \<and> textMatch gl incl [] sn
   \<and> (f \<in> set (fragments sn) \<and> gl (language f) = ''Python'' \<longrightarrow> textMatch gl incl ''PY'' sn)"
proof (intro conjI impI)
  show "textMatch gl incl term sn \<longleftrightarrow>
      occurs_in (toLowerCase term) (toLowerCase (title sn)) \<or>
      occurs_in (toLowerCase term) (toLowerCase (description sn)) \<or>
      (\<exists>f \<in> set (fragments sn). occurs_in (toLowerCase term) (toLowerCase (file_name f))) \<or>
      (\<exists>f \<in> set (fragments sn). occurs_in (toLowerCase term) (toLowerCase (gl (language f)))) \<or>
      (incl \<and> (\<exists>f \<in> set (fragments sn). occurs_in (toLowerCase term) (toLowerCase (code f))))"
    unfolding textMatch_def basicMatch_def fragmentMatch_def Let_def list_ex_iff str_includes_occurs
    by blast
  show "textMatch gl incl [] sn"
    by (simp add: textMatch_def basicMatch_def toLowerCase_def str_includes_empty)
  assume h: "f \<in> set (fragments sn) \<and> gl (language f) = ''Python''"
  then have "str_includes (toLowerCase (gl (language f))) (toLowerCase ''PY'')"
    by (simp only: lower_PY lower_Python py_in_python)
  with h show "textMatch gl incl ''PY'' sn"
    unfolding textMatch_def fragmentMatch_def Let_def list_ex_iff by blast
qed

theorem textMatch_substring_witness:
  "textMatch sampleLanguageLabel False ''PY'' (tagged []) \<and> textMatch sampleLanguageLabel False [] (tagged [])"
proof -
  have h: "plainFragment \<in> set (fragments (tagged [])) \<and> sampleLanguageLabel (language plainFragment) = ''Python''"
    by (simp add: tagged_def plainFragment_def sampleLanguageLabel_def)
  show ?thesis
    using h textMatch_substring [of sampleLanguageLabel False "[]" "tagged []" plainFragment] by blast
qed

subsection \<open>The sort\<close>



lemma set_insertBy: "set (insertBy cmp x ys) = insert x (set ys)"
  by (induction ys) auto

lemma set_sortBy: "set (sortBy cmp xs) = set xs"
  by (induction xs) (auto simp: set_insertBy)

lemma sorted_wrt_insertBy:
  assumes tr: "\<And>a b c. R a b \<Longrightarrow> R b c \<Longrightarrow> R a c"
    and le: "\<And>y. y \<in> set ys \<Longrightarrow> cmp x y \<le> 0 \<Longrightarrow> R x y"
    and gt: "\<And>y. y \<in> set ys \<Longrightarrow> \<not> cmp x y \<le> 0 \<Longrightarrow> R y x"
    and srt: "sorted_wrt R ys"
  shows "sorted_wrt R (insertBy cmp x ys)"
  using le gt srt
proof (induction ys)
  case Nil
  then show ?case by simp
next
  case (Cons y ys)
  show ?case
  proof (cases "cmp x y \<le> 0")
    case True
    then have xy: "R x y" using Cons.prems(1) by simp
    have "\<forall>z \<in> set ys. R x z"
      using Cons.prems(3) xy tr by auto
    with True xy Cons.prems(3) show ?thesis by simp
  next
    case False
    then have yx: "R y x" using Cons.prems(2) by simp
    have "sorted_wrt R (insertBy cmp x ys)"
      using Cons.IH Cons.prems by simp
    with False yx Cons.prems(3) show ?thesis by (simp add: set_insertBy)
  qed
qed

lemma sorted_wrt_sortBy:
  assumes tr: "\<And>a b c. R a b \<Longrightarrow> R b c \<Longrightarrow> R a c"
    and le: "\<And>x y. x \<in> set xs \<Longrightarrow> y \<in> set xs \<Longrightarrow> cmp x y \<le> 0 \<Longrightarrow> R x y"
    and gt: "\<And>x y. x \<in> set xs \<Longrightarrow> y \<in> set xs \<Longrightarrow> \<not> cmp x y \<le> 0 \<Longrightarrow> R y x"
  shows "sorted_wrt R (sortBy cmp xs)"
  using le gt
proof (induction xs)
  case Nil
  then show ?case by simp
next
  case (Cons x xs)
  have ih: "sorted_wrt R (sortBy cmp xs)"
    using Cons.IH Cons.prems by simp
  show ?case
    unfolding sortBy.simps
  proof (rule sorted_wrt_insertBy [OF tr _ _ ih])
    fix y assume "y \<in> set (sortBy cmp xs)" "cmp x y \<le> 0"
    then show "R x y" using Cons.prems(1) [of x y] by (simp add: set_sortBy)
  next
    fix y assume "y \<in> set (sortBy cmp xs)" "\<not> cmp x y \<le> 0"
    then show "R y x" using Cons.prems(2) [of x y] by (simp add: set_sortBy)
  qed
qed

lemma sortBy_cong:
  "(\<And>x y. x \<in> set xs \<Longrightarrow> y \<in> set xs \<Longrightarrow> cmp x y = cmp' x y) \<Longrightarrow> sortBy cmp xs = sortBy cmp' xs"
proof (induction xs)
  case Nil
  then show ?case by simp
next
  case (Cons x xs)
  have ih: "sortBy cmp xs = sortBy cmp' xs" using Cons by simp
  have "insertBy cmp x ys = insertBy cmp' x ys" if "set ys \<subseteq> set xs" for ys
    using that by (induction ys) (auto simp: Cons.prems)
  then show ?case using ih by (simp add: set_sortBy)
qed

subsection \<open>Pinned first\<close>

lemma compareSnippets_pin_le:
  "compareSnippets tm lc so a b \<le> 0 \<Longrightarrow> is_pinned b \<le> is_pinned a"
  by (auto simp: compareSnippets_def split: if_splits)

lemma compareSnippets_pin_gt:
  "\<not> compareSnippets tm lc so a b \<le> 0 \<Longrightarrow> is_pinned a \<le> is_pinned b"
  by (auto simp: compareSnippets_def split: if_splits)

lemma pins_descending:
  "sorted_wrt (\<lambda>a b. is_pinned b \<le> is_pinned a) (sortBy (compareSnippets tm lc so) xs)"
  by (rule sorted_wrt_sortBy) (auto dest: compareSnippets_pin_le compareSnippets_pin_gt)

text \<open>
  Claim C1. In the output of the pipeline, for every collection, filter state and sort order,
  a snippet with \<open>is_pinned = 1\<close> stands at a smaller index than any snippet with
  \<open>is_pinned = 0\<close>.
\<close>

theorem pinned_before_unpinned:
  assumes "i < length (filteredSnippets gl tm lc p st)"
    and "j < length (filteredSnippets gl tm lc p st)"
    and "is_pinned (filteredSnippets gl tm lc p st ! i) = 1"
    and "is_pinned (filteredSnippets gl tm lc p st ! j) = 0"
  shows "i < j"
proof (rule ccontr)
  let ?out = "filteredSnippets gl tm lc p st"
  assume "\<not> i < j"
  moreover have "i \<noteq> j" using assms(3,4) by auto
  ultimately have ji: "j < i" by simp
  have "sorted_wrt (\<lambda>a b. is_pinned b \<le> is_pinned a) ?out"
    unfolding filteredSnippets_def by (rule pins_descending)
  then have "is_pinned (?out ! i) \<le> is_pinned (?out ! j)"
    using ji assms(1) by (simp add: sorted_wrt_iff_nth_less)
  then show False using assms(3,4) by simp
qed

lemma example_times:
  "isoDateTime ''2024-01-01'' = Some 1704067200000"
  "isoDateTime ''2024-02-01'' = Some 1706745600000"
  "isoDateTime ''2024-03-01'' = Some 1709251200000"
  by code_simp+

lemma example_passes:
  "snippetPasses gl (browse sns) (initialState\<lparr>sortOrder := so\<rparr>) sn"
  by (simp add: snippetPasses_def browse_def initialState_def textMatch_def basicMatch_def
      languageMatch_def categoryMatch_def toLowerCase_def str_includes_empty)

lemma example_output:
  "filteredSnippets gl isoDateTime lc (browse [exampleS1, exampleS2, exampleS3])
     (initialState\<lparr>sortOrder := so\<rparr>) = [exampleS3, exampleS1, exampleS2]"
  by (simp add: filteredSnippets_def example_passes)
     (simp add: browse_def compareSnippets_def timeDiff_def example_times
        exampleS1_def exampleS2_def exampleS3_def)

theorem pinned_before_unpinned_witness:
  "is_pinned (filteredSnippets sampleLanguageLabel isoDateTime codeUnitCompare
       (browse [exampleS1, exampleS2, exampleS3]) initialState ! 1) = 1
   \<and> is_pinned (filteredSnippets sampleLanguageLabel isoDateTime codeUnitCompare
       (browse [exampleS1, exampleS2, exampleS3]) initialState ! 2) = 0
   \<and> (1 :: nat) < 2"
  using pinned_before_unpinned [of 1 sampleLanguageLabel isoDateTime codeUnitCompare
      "browse [exampleS1, exampleS2, exampleS3]" initialState 2]
    example_output [of sampleLanguageLabel codeUnitCompare Newest]
  by (simp add: initialState_def exampleS1_def exampleS2_def exampleS3_def)

subsection \<open>Default filters\<close>

lemma default_passes:
  assumes "searchTerm st = []" "selectedLanguage st = []" "selectedCategories st = []"
    "\<not> showFavorites p"
  shows "snippetPasses gl p st sn"
  using assms
  by (simp add: snippetPasses_def textMatch_def basicMatch_def languageMatch_def
      categoryMatch_def toLowerCase_def str_includes_empty)



subsection \<open>Order among the pinned\<close>

lemma filter_insertBy_other:
  "\<not> P x \<Longrightarrow> filter P (insertBy cmp x ys) = filter P ys"
  by (induction ys) auto

lemma filter_pinned_insertBy:
  assumes "isPinned x" and "sorted_wrt (\<lambda>a b. is_pinned b \<le> is_pinned a) ys"
  shows "filter isPinned (insertBy (compareSnippets tm lc so) x ys)
       = insertBy (compareSnippets tm lc so) x (filter isPinned ys)"
  using assms(2)
proof (induction ys)
  case Nil
  then show ?case using assms(1) by simp
next
  case (Cons y ys)
  have px: "is_pinned x = 1" using assms(1) by (simp add: isPinned_def)
  have ih: "filter isPinned (insertBy (compareSnippets tm lc so) x ys)
       = insertBy (compareSnippets tm lc so) x (filter isPinned ys)"
    using Cons by simp
  consider (above) "1 < is_pinned y" | (same) "is_pinned y = 1" | (below) "is_pinned y < 1"
    by linarith
  then show ?case
  proof cases
    case above
    then have "\<not> compareSnippets tm lc so x y \<le> 0" "\<not> isPinned y"
      using px by (auto simp: compareSnippets_def isPinned_def)
    then show ?thesis using ih by simp
  next
    case same
    then have "isPinned y" by (simp add: isPinned_def)
    then show ?thesis using ih assms(1) by simp
  next
    case below
    then have c: "compareSnippets tm lc so x y \<le> 0" and ny: "\<not> isPinned y"
      using px by (auto simp: compareSnippets_def isPinned_def)
    have "\<forall>z \<in> set ys. \<not> isPinned z"
      using Cons.prems below by (auto simp: isPinned_def)
    then have "filter isPinned ys = []" by (simp add: filter_empty_conv)
    then show ?thesis using c ny assms(1) by simp
  qed
qed

lemma filter_pinned_sortBy:
  "filter isPinned (sortBy (compareSnippets tm lc so) xs)
     = sortBy (compareSnippets tm lc so) (filter isPinned xs)"
proof (induction xs)
  case Nil
  then show ?case by simp
next
  case (Cons x xs)
  show ?case
  proof (cases "isPinned x")
    case True
    then show ?thesis
      using Cons filter_pinned_insertBy [OF True pins_descending, of tm lc so tm lc so xs]
      by simp
  next
    case False
    then show ?thesis using Cons by (simp add: filter_insertBy_other)
  qed
qed

lemma compareSnippets_pinned:
  "isPinned a \<Longrightarrow> isPinned b \<Longrightarrow>
     compareSnippets tm lc so a b = timeDiff tm (updated_at b) (updated_at a)"
  by (simp add: compareSnippets_def isPinned_def)

lemma pinned_part:
  "filter isPinned (filteredSnippets gl tm lc p st)
     = sortBy (\<lambda>a b. timeDiff tm (updated_at b) (updated_at a))
         (filter isPinned (filter (snippetPasses gl p st) (snippets p)))"
  unfolding filteredSnippets_def filter_pinned_sortBy
  by (rule sortBy_cong) (simp add: compareSnippets_pinned)

lemma snippetPasses_sortOrder:
  "snippetPasses gl p (st\<lparr>sortOrder := so\<rparr>) = snippetPasses gl p st"
  by (rule ext) (simp add: snippetPasses_def)

lemma notOlder_trans: "notOlder tm a b \<Longrightarrow> notOlder tm b c \<Longrightarrow> notOlder tm a c"
  by (auto simp: notOlder_def split: option.splits)

text \<open>
  Claim C2, amended. When the \<open>updated_at\<close> of every pinned snippet is a valid date, the
  pinned snippets of the output stand in non-increasing order of \<open>updated_at\<close> (the most
  recently updated first, equal times allowed); and for every input the pinned snippets
  of the output and their order are the same under every sort order.
\<close>

theorem pinned_by_recency:
  "((\<forall>sn \<in> set (snippets p). isPinned sn \<longrightarrow> tm (updated_at sn) \<noteq> None) \<longrightarrow>
      sorted_wrt (notOlder tm) (filter isPinned (filteredSnippets gl tm lc p st)))
   \<and> filter isPinned (filteredSnippets gl tm lc p (st\<lparr>sortOrder := so\<rparr>))
       = filter isPinned (filteredSnippets gl tm lc p st)"
proof (intro conjI impI)
  assume valid: "\<forall>sn \<in> set (snippets p). isPinned sn \<longrightarrow> tm (updated_at sn) \<noteq> None"
  let ?xs = "filter isPinned (filter (snippetPasses gl p st) (snippets p))"
  have v: "tm (updated_at x) \<noteq> None" if "x \<in> set ?xs" for x
    using that valid by auto
  have "sorted_wrt (notOlder tm) (sortBy (\<lambda>a b. timeDiff tm (updated_at b) (updated_at a)) ?xs)"
  proof (rule sorted_wrt_sortBy)
    fix a b c assume "notOlder tm a b" "notOlder tm b c"
    then show "notOlder tm a c" by (rule notOlder_trans)
  next
    fix x y assume "x \<in> set ?xs" "y \<in> set ?xs" "timeDiff tm (updated_at y) (updated_at x) \<le> 0"
    then show "notOlder tm x y"
      using v [of x] v [of y] by (auto simp: notOlder_def timeDiff_def)
  next
    fix x y assume "x \<in> set ?xs" "y \<in> set ?xs" "\<not> timeDiff tm (updated_at y) (updated_at x) \<le> 0"
    then show "notOlder tm y x"
      using v [of x] v [of y] by (auto simp: notOlder_def timeDiff_def)
  qed
  then show "sorted_wrt (notOlder tm) (filter isPinned (filteredSnippets gl tm lc p st))"
    by (simp only: pinned_part)
next
  show "filter isPinned (filteredSnippets gl tm lc p (st\<lparr>sortOrder := so\<rparr>))
       = filter isPinned (filteredSnippets gl tm lc p st)"
    by (simp only: pinned_part snippetPasses_sortOrder)
qed

theorem pinned_by_recency_witness:
  "sorted_wrt (notOlder isoDateTime) (filter isPinned
       (filteredSnippets sampleLanguageLabel isoDateTime codeUnitCompare
          (browse [exampleS1, exampleS2, exampleS3]) initialState))
   \<and> filter isPinned (filteredSnippets sampleLanguageLabel isoDateTime codeUnitCompare
          (browse [exampleS1, exampleS2, exampleS3]) (initialState\<lparr>sortOrder := AlphaAsc\<rparr>))
     = filter isPinned (filteredSnippets sampleLanguageLabel isoDateTime codeUnitCompare
          (browse [exampleS1, exampleS2, exampleS3]) initialState)"
proof -
  have h: "\<forall>sn \<in> set (snippets (browse [exampleS1, exampleS2, exampleS3])).
             isPinned sn \<longrightarrow> isoDateTime (updated_at sn) \<noteq> None"
    by (simp add: browse_def exampleS1_def exampleS2_def exampleS3_def example_times)
  show ?thesis
    using h pinned_by_recency [of "browse [exampleS1, exampleS2, exampleS3]" isoDateTime
        sampleLanguageLabel codeUnitCompare initialState AlphaAsc]
    by blast
qed

text \<open>
  The claim as stated asks for strictly descending times. Two pinned snippets updated at
  the same time are both in the output, and neither is strictly newer than the other.
\<close>

lemma initial_passes: "snippetPasses gl (browse sns) initialState sn"
  by (rule default_passes) (simp_all add: initialState_def browse_def)

lemma tie_output:
  "filteredSnippets gl isoDateTime lc (browse [tieA, tieB]) initialState = [tieA, tieB]"
  by (simp add: filteredSnippets_def initial_passes)
     (simp add: browse_def compareSnippets_def timeDiff_def example_times tieA_def tieB_def)

theorem pinned_strictly_descending_counterexample:
  "\<not> sorted_wrt (strictlyNewer isoDateTime) (filter isPinned
       (filteredSnippets sampleLanguageLabel isoDateTime codeUnitCompare
          (browse [tieA, tieB]) initialState))"
  by (simp add: tie_output)
     (simp add: isPinned_def strictlyNewer_def tieA_def tieB_def example_times)

subsection \<open>Order among the unpinned\<close>

lemma compareSnippets_unpinned:
  "isUnpinned a \<Longrightarrow> isUnpinned b \<Longrightarrow>
     compareSnippets tm lc AlphaAsc a b = lc (title a) (title b)
     \<and> compareSnippets tm lc AlphaDesc a b = lc (title b) (title a)"
  by (simp add: compareSnippets_def isUnpinned_def)

lemma unpinned_between:
  "is_pinned c \<le> is_pinned b \<Longrightarrow> is_pinned b \<le> is_pinned a \<Longrightarrow> isUnpinned a \<Longrightarrow> isUnpinned c
     \<Longrightarrow> isUnpinned b"
  by (simp add: isUnpinned_def)

lemma sorted_two_tier:
  assumes tr: "\<And>a b c. le a b \<Longrightarrow> le b c \<Longrightarrow> le a c"
    and c1: "\<And>x y. isUnpinned x \<Longrightarrow> isUnpinned y \<Longrightarrow> compareSnippets tm lc so x y \<le> 0 \<Longrightarrow> le x y"
    and c2: "\<And>x y. isUnpinned x \<Longrightarrow> isUnpinned y \<Longrightarrow> \<not> compareSnippets tm lc so x y \<le> 0 \<Longrightarrow> le y x"
  shows "sorted_wrt le (filter isUnpinned (sortBy (compareSnippets tm lc so) xs))"
proof -
  let ?R = "\<lambda>a b. is_pinned b \<le> is_pinned a \<and> (isUnpinned a \<and> isUnpinned b \<longrightarrow> le a b)"
  have "sorted_wrt ?R (sortBy (compareSnippets tm lc so) xs)"
  proof (rule sorted_wrt_sortBy)
    fix a b c assume ab: "?R a b" and bc: "?R b c"
    show "?R a c"
    proof (intro conjI impI)
      show "is_pinned c \<le> is_pinned a" using ab bc by simp
      assume u: "isUnpinned a \<and> isUnpinned c"
      then have "isUnpinned b" using ab bc unpinned_between [of c b a] by simp
      then show "le a c" using u ab bc tr by blast
    qed
  next
    fix x y assume "compareSnippets tm lc so x y \<le> 0"
    then show "?R x y" using c1 compareSnippets_pin_le by blast
  next
    fix x y assume "\<not> compareSnippets tm lc so x y \<le> 0"
    then show "?R y x" using c2 compareSnippets_pin_gt by blast
  qed
  then have "sorted_wrt ?R (filter isUnpinned (sortBy (compareSnippets tm lc so) xs))"
    by (rule sorted_wrt_filter)
  then show ?thesis
    by (rule sorted_wrt_mono_rel [rotated]) simp
qed

text \<open>
  Claim C3, amended. Let the locale comparison be transitive and total. With sort order
  alpha-asc the titles of the unpinned snippets of the output are non-decreasing, with
  alpha-desc they are non-increasing. The example S1 (Alpha, pinned, 2024-01-01),
  S2 (Beta, unpinned, 2024-03-01), S3 (Gamma, pinned, 2024-02-01) with alpha-asc yields
  S3, S1, S2: S3 was updated after S1, so it comes first among the pinned.
\<close>

theorem unpinned_by_title:
  assumes "\<forall>a b c. lc a b \<le> 0 \<longrightarrow> lc b c \<le> 0 \<longrightarrow> lc a c \<le> 0"
    and "\<forall>a b. lc a b \<le> 0 \<or> lc b a \<le> 0"
  shows "(sortOrder st = AlphaAsc \<longrightarrow>
            sorted_wrt (\<lambda>a b. lc (title a) (title b) \<le> 0)
              (filter isUnpinned (filteredSnippets gl tm lc p st)))
       \<and> (sortOrder st = AlphaDesc \<longrightarrow>
            sorted_wrt (\<lambda>a b. lc (title b) (title a) \<le> 0)
              (filter isUnpinned (filteredSnippets gl tm lc p st)))
       \<and> filteredSnippets gl isoDateTime lc (browse [exampleS1, exampleS2, exampleS3])
            (initialState\<lparr>sortOrder := AlphaAsc\<rparr>) = [exampleS3, exampleS1, exampleS2]"
proof (intro conjI impI)
  assume so: "sortOrder st = AlphaAsc"
  show "sorted_wrt (\<lambda>a b. lc (title a) (title b) \<le> 0)
          (filter isUnpinned (filteredSnippets gl tm lc p st))"
    unfolding filteredSnippets_def so
  proof (rule sorted_two_tier)
    fix a b c :: snippet
    assume "lc (title a) (title b) \<le> 0" "lc (title b) (title c) \<le> 0"
    then show "lc (title a) (title c) \<le> 0" using assms(1) by blast
  next
    fix x y assume "isUnpinned x" "isUnpinned y" "compareSnippets tm lc AlphaAsc x y \<le> 0"
    then show "lc (title x) (title y) \<le> 0" by (simp add: compareSnippets_unpinned)
  next
    fix x y assume "isUnpinned x" "isUnpinned y" "\<not> compareSnippets tm lc AlphaAsc x y \<le> 0"
    then have "\<not> lc (title x) (title y) \<le> 0" by (simp add: compareSnippets_unpinned)
    then show "lc (title y) (title x) \<le> 0" using assms(2) by blast
  qed
next
  assume so: "sortOrder st = AlphaDesc"
  show "sorted_wrt (\<lambda>a b. lc (title b) (title a) \<le> 0)
          (filter isUnpinned (filteredSnippets gl tm lc p st))"
    unfolding filteredSnippets_def so
  proof (rule sorted_two_tier)
    fix a b c :: snippet
    assume "lc (title b) (title a) \<le> 0" "lc (title c) (title b) \<le> 0"
    then show "lc (title c) (title a) \<le> 0" using assms(1) by blast
  next
    fix x y assume "isUnpinned x" "isUnpinned y" "compareSnippets tm lc AlphaDesc x y \<le> 0"
    then show "lc (title y) (title x) \<le> 0" by (simp add: compareSnippets_unpinned)
  next
    fix x y assume "isUnpinned x" "isUnpinned y" "\<not> compareSnippets tm lc AlphaDesc x y \<le> 0"
    then have "\<not> lc (title y) (title x) \<le> 0" by (simp add: compareSnippets_unpinned)
    then show "lc (title x) (title y) \<le> 0" using assms(2) by blast
  qed
next
  show "filteredSnippets gl isoDateTime lc (browse [exampleS1, exampleS2, exampleS3])
            (initialState\<lparr>sortOrder := AlphaAsc\<rparr>) = [exampleS3, exampleS1, exampleS2]"
    by (rule example_output)
qed

lemma codeUnitCompare_le: "codeUnitCompare a b \<le> 0 \<longleftrightarrow> a \<le> b"
  by (auto simp: codeUnitCompare_def)

theorem unpinned_by_title_witness:
  "sorted_wrt (\<lambda>a b. codeUnitCompare (title a) (title b) \<le> 0)
     (filter isUnpinned (filteredSnippets sampleLanguageLabel isoDateTime codeUnitCompare
        (browse [tagged [], exampleS1, exampleS2]) (initialState\<lparr>sortOrder := AlphaAsc\<rparr>)))
   \<and> sorted_wrt (\<lambda>a b. codeUnitCompare (title b) (title a) \<le> 0)
     (filter isUnpinned (filteredSnippets sampleLanguageLabel isoDateTime codeUnitCompare
        (browse [exampleS2, exampleS1, tagged []]) (initialState\<lparr>sortOrder := AlphaDesc\<rparr>)))
   \<and> filteredSnippets sampleLanguageLabel isoDateTime codeUnitCompare
        (browse [exampleS1, exampleS2, exampleS3])
        (initialState\<lparr>sortOrder := AlphaAsc\<rparr>) = [exampleS3, exampleS1, exampleS2]"
proof -
  have t: "\<forall>a b c. codeUnitCompare a b \<le> 0 \<longrightarrow> codeUnitCompare b c \<le> 0 \<longrightarrow> codeUnitCompare a c \<le> 0"
    by (auto simp: codeUnitCompare_le)
  have l: "\<forall>a b. codeUnitCompare a b \<le> 0 \<or> codeUnitCompare b a \<le> 0"
    by (auto simp: codeUnitCompare_le)
  have a: "sortOrder (initialState\<lparr>sortOrder := AlphaAsc\<rparr>) = AlphaAsc"
    and d: "sortOrder (initialState\<lparr>sortOrder := AlphaDesc\<rparr>) = AlphaDesc"
    by simp_all
  show ?thesis
    using unpinned_by_title [OF t l, of "initialState\<lparr>sortOrder := AlphaAsc\<rparr>"
        sampleLanguageLabel isoDateTime "browse [tagged [], exampleS1, exampleS2]"]
      unpinned_by_title [OF t l, of "initialState\<lparr>sortOrder := AlphaDesc\<rparr>"
        sampleLanguageLabel isoDateTime "browse [exampleS2, exampleS1, tagged []]"]
      a d
    by blast
qed

text \<open>
  The claim as stated gives S1, S3, S2 for the example. The pipeline puts S3 first:
  S1 and S3 are both pinned and S3 carries the later date.
\<close>

theorem example_order_counterexample:
  "filteredSnippets sampleLanguageLabel isoDateTime codeUnitCompare
     (browse [exampleS1, exampleS2, exampleS3]) (initialState\<lparr>sortOrder := AlphaAsc\<rparr>)
     \<noteq> [exampleS1, exampleS3, exampleS2]"
  by (simp add: example_output) (simp add: exampleS1_def exampleS3_def)

subsection \<open>Toggling a category\<close>






subsection \<open>Facets\<close>









subsection \<open>Permanently delete all\<close>

lemma dispatch_delete_call:
  assumes "PermanentDeleteAll xs \<in> set (snd (dispatch p e st))"
  shows "isPermanentDeleteAllModalOpen st \<and> e = ClickConfirm \<and> xs = snippets p"
  using assms
  by (cases e)
     (auto simp: dispatch_def openPermanentDeleteAllModal_def handlePermanentDeleteAllConfirm_def
        modalButtonsShown_def split: if_splits)

lemma dispatch_stays_closed:
  assumes "\<not> isPermanentDeleteAllModalOpen st" and "e = ClickClearAll \<longrightarrow> snippets p = []"
  shows "\<not> isPermanentDeleteAllModalOpen (fst (dispatch p e st))
         \<and> \<not> list_ex isDeleteCall (snd (dispatch p e st))"
  using assms
  by (cases e)
     (auto simp: dispatch_def openPermanentDeleteAllModal_def handlePermanentDeleteAllConfirm_def
        modalButtonsShown_def closePermanentDeleteAllModal_def isDeleteCall_def)

lemma run_stays_closed:
  assumes "\<not> isPermanentDeleteAllModalOpen st"
    and "\<forall>(p, e) \<in> set evs. e = ClickClearAll \<longrightarrow> snippets p = []"
  shows "\<not> isPermanentDeleteAllModalOpen (fst (run evs st))
         \<and> \<not> list_ex isDeleteCall (snd (run evs st))"
  using assms
proof (induction evs arbitrary: st)
  case Nil
  then show ?case by simp
next
  case (Cons pe evs)
  obtain p e where pe: "pe = (p, e)" by (cases pe)
  obtain st' fx where d: "dispatch p e st = (st', fx)" by (cases "dispatch p e st")
  obtain st'' fx' where r: "run evs st' = (st'', fx')" by (cases "run evs st'")
  have "e = ClickClearAll \<longrightarrow> snippets p = []" using Cons.prems(2) pe by simp
  then have s: "\<not> isPermanentDeleteAllModalOpen st' \<and> \<not> list_ex isDeleteCall fx"
    using dispatch_stays_closed [OF Cons.prems(1), of e p] d by simp
  then have "\<not> isPermanentDeleteAllModalOpen (fst (run evs st'))
         \<and> \<not> list_ex isDeleteCall (snd (run evs st'))"
    using Cons.IH [of st'] Cons.prems(2) by simp
  then show ?case using s pe d r by simp
qed

text \<open>
  Claim C4, amended. Confirming the bulk action closes the dialog and, when the callback
  was passed, calls it once with the component's input collection \<open>snippets\<close>, whatever the
  filters show. A call of the callback happens only on the dialog's confirm button while
  the dialog is open. On an empty input collection the action shows a toast and leaves the
  state as it is; in a session that starts with the dialog closed and presses the button
  only on empty collections, the dialog stays closed and the callback is never called.
\<close>

theorem permanent_delete_all_gated:
  "(onPermanentDeleteAll p \<longrightarrow>
      handlePermanentDeleteAllConfirm p st
        = (st\<lparr>isPermanentDeleteAllModalOpen := False\<rparr>, [PermanentDeleteAll (snippets p)]))
   \<and> (PermanentDeleteAll xs \<in> set (snd (dispatch p e st)) \<longrightarrow>
        isPermanentDeleteAllModalOpen st \<and> e = ClickConfirm \<and> xs = snippets p)
   \<and> (snippets p = [] \<longrightarrow>
        openPermanentDeleteAllModal p st
          = (st, [Toast ''No snippets in the recycle bin to clear.'' ''info'']))
   \<and> (\<not> isPermanentDeleteAllModalOpen st
        \<and> (\<forall>(q, e) \<in> set evs. e = ClickClearAll \<longrightarrow> snippets q = []) \<longrightarrow>
        \<not> isPermanentDeleteAllModalOpen (fst (run evs st))
        \<and> \<not> list_ex isDeleteCall (snd (run evs st)))"
proof (intro conjI impI)
  assume "onPermanentDeleteAll p"
  then show "handlePermanentDeleteAllConfirm p st
        = (st\<lparr>isPermanentDeleteAllModalOpen := False\<rparr>, [PermanentDeleteAll (snippets p)])"
    by (simp add: handlePermanentDeleteAllConfirm_def closePermanentDeleteAllModal_def)
next
  assume h: "PermanentDeleteAll xs \<in> set (snd (dispatch p e st))"
  show "isPermanentDeleteAllModalOpen st" "e = ClickConfirm" "xs = snippets p"
    using dispatch_delete_call [OF h] by simp_all
next
  assume "snippets p = []"
  then show "openPermanentDeleteAllModal p st
          = (st, [Toast ''No snippets in the recycle bin to clear.'' ''info''])"
    by (simp add: openPermanentDeleteAllModal_def)
next
  assume h: "\<not> isPermanentDeleteAllModalOpen st
        \<and> (\<forall>(q, e) \<in> set evs. e = ClickClearAll \<longrightarrow> snippets q = [])"
  show "\<not> isPermanentDeleteAllModalOpen (fst (run evs st))"
    and "\<not> list_ex isDeleteCall (snd (run evs st))"
    using run_stays_closed [of st evs] h by simp_all
qed

lemma session_example:
  "run [(recycleBin [exampleS1, exampleS2, exampleS3], ClickConfirm),
        (recycleBin [exampleS1, exampleS2, exampleS3], ClickClearAll),
        (recycleBin [exampleS1, exampleS2, exampleS3], ClickConfirm)] searchingBeta
     = (searchingBeta, [PermanentDeleteAll [exampleS1, exampleS2, exampleS3]])"
  by code_simp


theorem permanent_delete_all_gated_witness:
  "handlePermanentDeleteAllConfirm (recycleBin [exampleS1, exampleS2, exampleS3]) openedBeta
     = (searchingBeta, [PermanentDeleteAll [exampleS1, exampleS2, exampleS3]])
   \<and> PermanentDeleteAll [exampleS1, exampleS2, exampleS3]
       \<in> set (snd (dispatch (recycleBin [exampleS1, exampleS2, exampleS3]) ClickConfirm openedBeta))
   \<and> isPermanentDeleteAllModalOpen openedBeta
   \<and> openPermanentDeleteAllModal (recycleBin []) initialState
       = (initialState, [Toast ''No snippets in the recycle bin to clear.'' ''info''])
   \<and> \<not> isPermanentDeleteAllModalOpen
         (fst (run [(recycleBin [], ClickClearAll), (recycleBin [], ClickConfirm)] initialState))
   \<and> \<not> list_ex isDeleteCall
         (snd (run [(recycleBin [], ClickClearAll), (recycleBin [], ClickConfirm)] initialState))"
proof -
  let ?p = "recycleBin [exampleS1, exampleS2, exampleS3]"
  let ?evs = "[(recycleBin [], ClickClearAll), (recycleBin [], ClickConfirm)]"
  have h1: "onPermanentDeleteAll ?p"
    by (simp add: recycleBin_def browse_def)
  have h2: "PermanentDeleteAll [exampleS1, exampleS2, exampleS3]
       \<in> set (snd (dispatch ?p ClickConfirm openedBeta))"
    by (simp add: dispatch_def modalButtonsShown_def openedBeta_def
        handlePermanentDeleteAllConfirm_def recycleBin_def browse_def)
  have h3: "snippets (recycleBin []) = []"
    by (simp add: recycleBin_def browse_def)
  have h4: "\<not> isPermanentDeleteAllModalOpen initialState
        \<and> (\<forall>(q, e) \<in> set ?evs. e = ClickClearAll \<longrightarrow> snippets q = [])"
    by (simp add: initialState_def recycleBin_def browse_def)
  have c: "openedBeta\<lparr>isPermanentDeleteAllModalOpen := False\<rparr> = searchingBeta"
    by (simp add: openedBeta_def searchingBeta_def initialState_def)
  have s: "snippets ?p = [exampleS1, exampleS2, exampleS3]"
    by (simp add: recycleBin_def browse_def)
  show ?thesis
    using h1 h2 h3 h4 c s
      permanent_delete_all_gated [of ?p openedBeta "[exampleS1, exampleS2, exampleS3]"
        ClickConfirm "[]"]
      permanent_delete_all_gated [of "recycleBin []" initialState "[]" ClickCancel ?evs]
    by simp
qed

text \<open>
  The claim as stated has the callback receive the post-filter collection. With the search
  term \<open>beta\<close> only S2 is shown, and confirming hands all three snippets to the callback.
\<close>

theorem delete_all_argument_counterexample:
  "snd (handlePermanentDeleteAllConfirm (recycleBin [exampleS1, exampleS2, exampleS3]) openedBeta)
     \<noteq> [PermanentDeleteAll
          (filteredSnippets sampleLanguageLabel isoDateTime codeUnitCompare
             (recycleBin [exampleS1, exampleS2, exampleS3]) openedBeta)]"
proof -
  have "filteredSnippets sampleLanguageLabel isoDateTime codeUnitCompare
          (recycleBin [exampleS1, exampleS2, exampleS3]) openedBeta = [exampleS2]"
    by code_simp
  then show ?thesis
    by (simp add: handlePermanentDeleteAllConfirm_def recycleBin_def browse_def)
qed

end
